theory Spec2Isabelle
  imports Main "HOL-Library.Word"
begin

section \<open>bluboi: a shallow embedding of main.go\<close>

text \<open>
  The program keeps its state in package-level variables (\<open>Adapter\<close>, \<open>Logs\<close>,
  \<open>EventQueue\<close>, \<open>Devices\<close>, \<open>Clients\<close>) and mutates them from goroutines. The
  embedding passes that state explicitly, as one record \<open>world\<close>. Every call into the
  tinygo bluetooth driver, the HTTP response writers and the request contexts is outside
  the repository: their answers are parameters of the model.

  A goroutine that holds one lock from its first statement to its last (\<open>Connect\<close>,
  \<open>Disconnect\<close>, \<open>BroadcastLog\<close>) is one step. A goroutine that does not (\<open>Scan\<close>,
  the event stream handler) is a sequence of moves, one for each stretch that no other
  goroutine can cut into, and the state records where each such goroutine stands, so that
  the moves of different goroutines come in any order.

  The globals \<open>ConnectedDevice\<close> and \<open>IsConnecting\<close> are declared in main.go and never
  read or written there; they are left out.
\<close>

subsection \<open>Data\<close>

text \<open>\<open>type Event struct { Type string; Data string }\<close>\<close>

record Event =
  Type :: string
  Data :: string

text \<open>\<open>type Log struct { Level string; Msg string }\<close>\<close>

record Log =
  Level :: string
  Msg :: string

text \<open>
  \<open>type Client struct { id uint32; w http.ResponseWriter; r *http.Request }\<close>.
  The writer and the request are references to objects of net/http; the model names them
  by a number, so that two copies of one \<open>Client\<close> value share their writer.
  (\<open>id\<close> is a constant of HOL; the fields carry the prefix \<open>Client_\<close>.)
\<close>

record Client =
  Client_id :: "32 word"
  Client_w :: nat
  Client_r :: nat

text \<open>
  \<open>type Device struct { Name string; Address *bluetooth.Address }\<close>.
  \<open>bluetooth.Address\<close> belongs to the driver; the program only renders it with
  \<open>String()\<close> and hands it back to the driver, so the model keeps that rendering. The
  pointer is \<open>&result.Address\<close> at the only place a \<open>Device\<close> is built and is never nil
  there; the model stores the value.
\<close>

record Device =
  Name :: string
  Address :: string

text \<open>
  What the program reads of a \<open>bluetooth.ScanResult\<close>: \<open>result.LocalName()\<close> and
  \<open>result.Address\<close> (as its \<open>String()\<close>).
\<close>

record ScanResult =
  LocalName :: string
  ResultAddress :: string

text \<open>A \<open>*bluetooth.Device\<close> is an opaque handle; \<open>None\<close> is the nil pointer.\<close>

type_synonym handle = nat

text \<open>A Go \<open>error\<close> value: \<open>None\<close> is nil, \<open>Some m\<close> an error whose \<open>Error()\<close> is \<open>m\<close>.\<close>

type_synonym go_error = "string option"

text \<open>The run-time panics of Go that the modelled code can raise.\<close>

datatype panic = SliceBoundsOutOfRange | IndexOutOfRange

text \<open>
  Where one call of \<open>SafeAdapter.Scan\<close> stands. The calling goroutine has been started
  with the number of seconds and has not run yet (\<open>Called\<close>), is in its
  \<open>for { select ... }\<close> loop with a context whose \<open>Done\<close> channel is ready from the given
  clock reading on (\<open>Looping\<close>), or has returned. \<open>scanning\<close> says whether the goroutine
  that \<open>Scan\<close> starts is inside \<open>Adapter.Scan(callback)\<close>.
\<close>

datatype scan_point = Called nat | Looping nat | Returned

record scan =
  point :: scan_point
  scanning :: bool

text \<open>
  Where one run of the event stream handler stands, with its local variables: the client
  it serves and, once read, \<open>index\<close>. The points are the two tests and the two
  receives of the loops that empty the channels, the three calls on the client registry
  (each takes and releases the registry's lock), the traversal of the device registry,
  and the final \<open>select\<close>. A handler that panicked has been ended by net/http.
\<close>

datatype handler =
    LogsTest Client
  | LogsReceive Client
  | EventsTest Client
  | EventsReceive Client
  | AtLength Client
  | AtAddClient Client nat
  | AtFlush Client nat
  | AtForEach Client
  | AtSelect Client
  | Ended
  | Panicked panic

text \<open>
  The state of the process. \<open>BTDevice\<close> and \<open>Connected\<close> are the fields of the
  \<open>SafeAdapter\<close> value \<open>Adapter\<close>; \<open>Devices\<close> is the map inside \<open>SafeDevices\<close>;
  \<open>Clients\<close> is the slice inside \<open>SafeClients\<close>, as the elements below its length.

  \<open>Logs\<close> and \<open>EventQueue\<close> are the two channels of capacity 10. A channel is
  first-in first-out; a sender that finds ten entries buffered waits, and a receive moves
  the longest-waiting sender's value into the buffer at once. The model keeps, oldest
  first, the values sent and not yet received (buffered or held by a waiting sender), and
  leaves out when a sender resumes.

  \<open>Deliveries\<close> holds the frames for which \<open>BroadcastLogs\<close> has started
  \<open>go Clients.BroadcastLog(...)\<close> and whose goroutine has not yet taken the registry lock.
  \<open>Written\<close> records every successful \<open>w.Write(l)\<close>, as the writer and the bytes, in the
  order of the writes: what a subscriber receives is the entries of its writer.

  \<open>Clock\<close> is the time in seconds. \<open>StopScanCalls\<close> records every call of
  \<open>Adapter.StopScan()\<close>, as the clock reading at which it was made. \<open>Scans\<close> and
  \<open>Handlers\<close> are the calls of \<open>Scan\<close> and the event stream handlers under way.
\<close>

record world =
  BTDevice :: "handle option"
  Connected :: bool
  Logs :: "Log list"
  EventQueue :: "Event list"
  Devices :: "string \<rightharpoonup> Device"
  Clients :: "Client list"
  Deliveries :: "string list"
  Written :: "(nat \<times> string) list"
  Clock :: nat
  StopScanCalls :: "nat list"
  Scans :: "scan list"
  Handlers :: "handler list"

text \<open>The initial values of the package-level variables.\<close>

definition init_world :: world where
  "init_world =
     \<lparr>BTDevice = None, Connected = False, Logs = [], EventQueue = [],
      Devices = Map.empty, Clients = [], Deliveries = [], Written = [],
      Clock = 0, StopScanCalls = [], Scans = [], Handlers = []\<rparr>"

text \<open>
  The answers of the bluetooth driver to the calls of one command:
  \<open>Adapter.Connect(addr, params)\<close> returns a handle and an error;
  \<open>BTDevice.Disconnect()\<close> and \<open>Adapter.StopScan()\<close> return an error.
\<close>

record Driver =
  Adapter_Connect :: "string \<Rightarrow> handle option \<times> go_error"
  Device_Disconnect :: "handle \<Rightarrow> go_error"
  Adapter_StopScan :: go_error

subsection \<open>Logging and the wire encoding\<close>

text \<open>\<open>strings.Join(elems, sep)\<close>\<close>

fun Join :: "string list \<Rightarrow> string \<Rightarrow> string" where
  "Join [] sep = []"
| "Join [x] sep = x"
| "Join (x # y # ys) sep = x @ sep @ Join (y # ys) sep"

text \<open>\<open>Logs <- Log{Level: "INFO", Msg: strings.Join(info, " ")}\<close>, and its two siblings.\<close>

definition LogInfo :: "string list \<Rightarrow> world \<Rightarrow> world" where
  "LogInfo info w = w\<lparr>Logs := Logs w @ [\<lparr>Level = ''INFO'', Msg = Join info '' ''\<rparr>]\<rparr>"

definition LogDeviceInfo :: "string list \<Rightarrow> world \<Rightarrow> world" where
  "LogDeviceInfo info w = w\<lparr>Logs := Logs w @ [\<lparr>Level = ''DEVICE'', Msg = Join info '';''\<rparr>]\<rparr>"

definition LogError :: "string list \<Rightarrow> world \<Rightarrow> world" where
  "LogError err w = w\<lparr>Logs := Logs w @ [\<lparr>Level = ''ERROR'', Msg = Join err '' ''\<rparr>]\<rparr>"

text \<open>
  \<open>[]byte("event: " + l.Level + "\ndata: \"" + l.Msg + "\"\n\n")\<close>;
  \<open>CHR 0x0A\<close> is the newline and \<open>CHR 0x22\<close> the double quote.
\<close>

definition LogToSSE :: "Log \<Rightarrow> string" where
  "LogToSSE l =
     ''event: '' @ Level l @ [CHR 0x0A] @ ''data: '' @ [CHR 0x22] @ Msg l @ [CHR 0x22]
       @ [CHR 0x0A, CHR 0x0A]"

subsection \<open>The device registry (\<open>SafeDevices\<close>)\<close>

text \<open>\<open>if _, ok := sd.Devices[addr]; ok { return true }; return false\<close>\<close>

definition Exists :: "world \<Rightarrow> string \<Rightarrow> bool" where
  "Exists w addr = (case Devices w addr of Some d \<Rightarrow> True | None \<Rightarrow> False)"

text \<open>
  \<open>return sd.Devices[addr]\<close>. For a missing key Go returns the zero \<open>Device\<close>, with
  the empty name and the nil address; the model's zero device has the empty address.
  \<open>Connect\<close>, the only caller, asks \<open>Exists\<close> first.
\<close>

definition SafeDevices_Device :: "world \<Rightarrow> string \<Rightarrow> Device" where
  "SafeDevices_Device w addr =
     (case Devices w addr of Some d \<Rightarrow> d | None \<Rightarrow> \<lparr>Name = [], Address = []\<rparr>)"

text \<open>\<open>sd.Devices[device.Address.String()] = device\<close>\<close>

definition Add :: "Device \<Rightarrow> world \<Rightarrow> world" where
  "Add device w = w\<lparr>Devices := (Devices w)(Address device \<mapsto> device)\<rparr>"

text \<open>
  \<open>for addr, device := range sd.Devices { callback(addr, device) }\<close>. Go leaves the
  order of a map traversal open; \<open>order\<close> is the order this traversal takes, a list of
  the keys. The callback of the program does not write the map.
\<close>

fun ForEach :: "string list \<Rightarrow> (string \<Rightarrow> Device \<Rightarrow> world \<Rightarrow> world) \<Rightarrow> world \<Rightarrow> world" where
  "ForEach [] callback w = w"
| "ForEach (addr # rest) callback w =
     (case Devices w addr of
        Some device \<Rightarrow> ForEach rest callback (callback addr device w)
      | None \<Rightarrow> ForEach rest callback w)"

subsection \<open>The adapter (\<open>SafeAdapter\<close>)\<close>

text \<open>
  \<open>Connect\<close> and \<open>Disconnect\<close> hold the adapter's lock from entry to return, so two
  of them never overlap; each is one step of the model.
\<close>

definition Connect :: "Driver \<Rightarrow> string \<Rightarrow> world \<Rightarrow> world" where
  "Connect drv address w =
     (if Connected w \<or> BTDevice w \<noteq> None then LogError [''You're already connected.''] w
      else if \<not> Exists w address then LogError [''Could not find the device.''] w
      else
        let device = SafeDevices_Device w address in
        (case Adapter_Connect drv (Address device) of
           (dvc, Some err) \<Rightarrow> LogError [''Could not connect to '', Name device, err] w
         | (dvc, None) \<Rightarrow>
             LogInfo [''Connected to'', Name device] (w\<lparr>BTDevice := dvc, Connected := True\<rparr>)))"

definition Disconnect :: "Driver \<Rightarrow> world \<Rightarrow> world" where
  "Disconnect drv w =
     (if \<not> Connected w \<or> BTDevice w = None
      then LogError [''Currently not connected to any device.''] w
      else
        (case Device_Disconnect drv (the (BTDevice w)) of
           Some err \<Rightarrow> LogError [''Could not disconnect device -'', err] w
         | None \<Rightarrow> LogInfo [''Disconnected.''] (w\<lparr>Connected := False, BTDevice := None\<rparr>)))"

text \<open>
  The callback that \<open>Scan\<close> gives to the driver, run on one scan result.
\<close>

definition on_discovery :: "ScanResult \<Rightarrow> world \<Rightarrow> world" where
  "on_discovery result w =
     (if LocalName result = [] then w
      else if Exists w (ResultAddress result) then w
      else
        LogDeviceInfo [ResultAddress result, LocalName result]
          (Add \<lparr>Name = LocalName result, Address = ResultAddress result\<rparr> w))"

text \<open>
  The moves of one call of \<open>Scan\<close>, of the goroutine it starts, and of the clock.
  \<^item> \<open>Begin\<close>: \<open>Scan\<close> makes its context, whose deadline is \<open>seconds\<close> after the
    present clock reading, sends \<open>Scanning...\<close> and starts the goroutine, which enters
    \<open>Adapter.Scan\<close>.
  \<^item> \<open>Tick\<close>: a second passes.
  \<^item> \<open>Poll stop_err\<close>: one round of \<open>for { select { case <-ctx.Done(): ...; default: } }\<close>.
    Before the deadline the \<open>default\<close> branch is taken and nothing happens. From the
    deadline on \<open>Adapter.StopScan()\<close> is called and \<open>Scan\<close> returns; \<open>stop_err\<close> is
    what the call returns. An error is written to the process log only, not to \<open>Logs\<close>.
  \<^item> \<open>Discovery result\<close>: the driver calls the callback on a scan result.
  \<^item> \<open>Returns err\<close>: \<open>Adapter.Scan\<close> returns \<open>err\<close> to the goroutine, which sends
    \<open>LogError(err.Error())\<close> when it is not nil, and ends.
  A move that does not fit the point where the call stands changes nothing.
\<close>

datatype move = Begin | Tick | Poll go_error | Discovery ScanResult | Returns go_error

fun Scan_move :: "move \<Rightarrow> scan \<times> world \<Rightarrow> scan \<times> world" where
  "Scan_move Begin (s, w) =
     (case point s of
        Called seconds \<Rightarrow>
          (s\<lparr>point := Looping (Clock w + seconds), scanning := True\<rparr>,
           LogInfo [''Scanning...''] w)
      | _ \<Rightarrow> (s, w))"
| "Scan_move Tick (s, w) = (s, w\<lparr>Clock := Suc (Clock w)\<rparr>)"
| "Scan_move (Poll stop_err) (s, w) =
     (case point s of
        Looping deadline \<Rightarrow>
          if deadline \<le> Clock w then
            (s\<lparr>point := Returned\<rparr>,
             case stop_err of
               Some err \<Rightarrow> w\<lparr>StopScanCalls := StopScanCalls w @ [Clock w]\<rparr>
             | None \<Rightarrow>
                 LogInfo [''Stopped Scanning.'']
                   (w\<lparr>StopScanCalls := StopScanCalls w @ [Clock w]\<rparr>))
          else (s, w)
      | _ \<Rightarrow> (s, w))"
| "Scan_move (Discovery result) (s, w) =
     (if scanning s then (s, on_discovery result w) else (s, w))"
| "Scan_move (Returns err) (s, w) =
     (if scanning s
      then (s\<lparr>scanning := False\<rparr>, case err of Some e \<Rightarrow> LogError [e] w | None \<Rightarrow> w)
      else (s, w))"

text \<open>
  One call \<open>Scan(seconds)\<close> under a sequence of moves, no other goroutine moving in
  between: where the call stands at the end, and the state.
\<close>

definition Scan :: "nat \<Rightarrow> move list \<Rightarrow> world \<Rightarrow> scan \<times> world" where
  "Scan seconds ms w = fold Scan_move ms (\<lparr>point = Called seconds, scanning = False\<rparr>, w)"

text \<open>A move of the call number \<open>k\<close> of those under way.\<close>

definition scan_step :: "nat \<Rightarrow> move \<Rightarrow> world \<Rightarrow> world" where
  "scan_step k m w =
     (if k < length (Scans w) then
        (case Scan_move m (Scans w ! k, w) of
           (s', w') \<Rightarrow> w'\<lparr>Scans := (Scans w)[k := s']\<rparr>)
      else w)"



text \<open>\<open>SafeAdapter.StopScan\<close>, the operation of the STOP_SCAN command.\<close>

definition StopScan :: "Driver \<Rightarrow> world \<Rightarrow> world" where
  "StopScan drv w =
     (case Adapter_StopScan drv of
        Some err \<Rightarrow>
          LogError [''Could not stop scanning -'', err]
            (w\<lparr>StopScanCalls := StopScanCalls w @ [Clock w]\<rparr>)
      | None \<Rightarrow>
          LogInfo [''Stopped Scanning.''] (w\<lparr>StopScanCalls := StopScanCalls w @ [Clock w]\<rparr>))"

subsection \<open>The event loop\<close>

text \<open>
  The body of \<open>switch e.Type\<close> in \<open>ProcessEventQueue\<close>. Each case starts the
  operation with \<open>go\<close>. \<open>StopScan\<close>, \<open>Connect\<close> and \<open>Disconnect\<close> run as one step;
  \<open>go Adapter.Scan(5)\<close> adds a call of \<open>Scan\<close> to those under way. An event of any
  other type is dropped.
\<close>

definition dispatch :: "Driver \<Rightarrow> Event \<Rightarrow> world \<Rightarrow> world" where
  "dispatch drv e w =
     (if Type e = ''SCAN''
      then w\<lparr>Scans := Scans w @ [\<lparr>point = Called 5, scanning = False\<rparr>]\<rparr>
      else if Type e = ''STOP_SCAN'' then StopScan drv w
      else if Type e = ''CONNECT'' then Connect drv (Data e) w
      else if Type e = ''DISCONNECT'' then Disconnect drv w
      else w)"

text \<open>
  One round of \<open>for { e := <-EventQueue; switch ... }\<close>; \<open>None\<close> when the receive
  waits on the empty queue.
\<close>

definition ProcessEventQueue_round :: "Driver \<Rightarrow> world \<Rightarrow> world option" where
  "ProcessEventQueue_round drv w =
     (case EventQueue w of
        [] \<Rightarrow> None
      | e # rest \<Rightarrow> Some (dispatch drv e (w\<lparr>EventQueue := rest\<rparr>)))"

text \<open>\<open>EventQueue <- Event{...}\<close>, what each of the four command handlers does.\<close>

definition enqueue :: "Event \<Rightarrow> world \<Rightarrow> world" where
  "enqueue e w = w\<lparr>EventQueue := EventQueue w @ [e]\<rparr>"

definition ScanHandler :: "world \<Rightarrow> world" where
  "ScanHandler w = enqueue \<lparr>Type = ''SCAN'', Data = []\<rparr> w"

definition StopScanHandler :: "world \<Rightarrow> world" where
  "StopScanHandler w = enqueue \<lparr>Type = ''STOP_SCAN'', Data = []\<rparr> w"

definition ConnectHandler :: "string \<Rightarrow> world \<Rightarrow> world" where
  "ConnectHandler addr w = enqueue \<lparr>Type = ''CONNECT'', Data = addr\<rparr> w"

definition DisconnectHandler :: "world \<Rightarrow> world" where
  "DisconnectHandler w = enqueue \<lparr>Type = ''DISCONNECT'', Data = []\<rparr> w"

subsection \<open>The client registry (\<open>SafeClients\<close>) and the broadcast\<close>

text \<open>
  \<open>sc.Clients[index].w.(http.Flusher)\<close> and \<open>f.Flush()\<close>: the index is checked;
  flushing changes nothing that the model keeps.
\<close>

definition Flush :: "nat \<Rightarrow> world \<Rightarrow> panic + world" where
  "Flush index w = (if index < length (Clients w) then Inr w else Inl IndexOutOfRange)"

definition AddClient :: "Client \<Rightarrow> world \<Rightarrow> world" where
  "AddClient client w = w\<lparr>Clients := Clients w @ [client]\<rparr>"

definition Length :: "world \<Rightarrow> nat" where
  "Length w = length (Clients w)"

text \<open>
  \<open>for i, c := range sc.Clients { if c.id == id { sc.Clients = append(sc.Clients[:i],
  sc.Clients[i+1:]...); break } }\<close>: the first client with that id is cut out and the
  loop ends there.
\<close>

fun RemoveClient_loop :: "32 word \<Rightarrow> Client list \<Rightarrow> Client list" where
  "RemoveClient_loop i [] = []"
| "RemoveClient_loop i (c # cs) = (if Client_id c = i then cs else c # RemoveClient_loop i cs)"

definition RemoveClient :: "32 word \<Rightarrow> world \<Rightarrow> world" where
  "RemoveClient i w = w\<lparr>Clients := RemoveClient_loop i (Clients w)\<rparr>"

text \<open>
  What the network answers during one \<open>BroadcastLog\<close>: whether \<open>Write\<close> on a writer
  returns an error, and whether the context of a request is done.
\<close>

record Net =
  write_err :: "nat \<Rightarrow> bool"
  ctx_done :: "nat \<Rightarrow> bool"

text \<open>
  \<open>sc.Clients = append(sc.Clients[:i], sc.Clients[i+1:]...)\<close> inside the loop of
  \<open>BroadcastLog\<close>. \<open>arr\<close> is the backing array as far as the loop reads it and \<open>m\<close> the
  current length of \<open>sc.Clients\<close>. The slice expression \<open>sc.Clients[i+1:]\<close> panics when
  \<open>i+1\<close> exceeds that length. Otherwise the elements \<open>i+1 .. m-1\<close> are copied down by
  one inside the same array (there is room, so \<open>append\<close> does not allocate); the element
  at \<open>m-1\<close> and those above stay where they are, and the length becomes \<open>m-1\<close>.
\<close>

definition remove_at :: "nat \<Rightarrow> Client list \<times> nat \<Rightarrow> panic + (Client list \<times> nat)" where
  "remove_at i s =
     (case s of (arr, m) \<Rightarrow>
        if m < i + 1 then Inl SliceBoundsOutOfRange
        else Inr (take i arr @ take (m - (i + 1)) (drop (i + 1) arr) @ drop (m - 1) arr, m - 1))"

text \<open>
  The loop \<open>for i, client := range sc.Clients\<close> of \<open>BroadcastLog\<close>. The range
  expression is evaluated once: the loop runs \<open>i\<close> over the \<open>n\<close> indices of the slice
  it started with and reads \<open>client\<close> from the backing array at each round, while the
  body shortens \<open>sc.Clients\<close> in that same array. On a write error the client is
  removed and the loop continues; otherwise the frame has been written, and the client
  is removed when its request's context is done (the \<open>break\<close> there leaves the
  \<open>select\<close>, not the loop) and flushed when it is not.
\<close>

function BroadcastLog_loop ::
  "Net \<Rightarrow> string \<Rightarrow> nat \<Rightarrow> nat \<Rightarrow> Client list \<times> nat \<Rightarrow> (nat \<times> string) list
     \<Rightarrow> panic + (Client list \<times> nat) \<times> (nat \<times> string) list" where
  "BroadcastLog_loop net l n i s out =
     (if n \<le> i then Inr (s, out)
      else
        let client = fst s ! i in
        if write_err net (Client_w client) then
          (case remove_at i s of
             Inl e \<Rightarrow> Inl e
           | Inr s' \<Rightarrow> BroadcastLog_loop net l n (Suc i) s' out)
        else if ctx_done net (Client_r client) then
          (case remove_at i s of
             Inl e \<Rightarrow> Inl e
           | Inr s' \<Rightarrow> BroadcastLog_loop net l n (Suc i) s' (out @ [(Client_w client, l)]))
        else BroadcastLog_loop net l n (Suc i) s (out @ [(Client_w client, l)]))"
  by pat_completeness auto
termination
  by (relation "measure (\<lambda>(net, l, n, i, s, out). n - i)") auto

definition BroadcastLog :: "Net \<Rightarrow> string \<Rightarrow> world \<Rightarrow> panic + world" where
  "BroadcastLog net l w =
     (case BroadcastLog_loop net l (length (Clients w)) 0 (Clients w, length (Clients w))
             (Written w) of
        Inl e \<Rightarrow> Inl e
      | Inr ((arr, m), out) \<Rightarrow> Inr (w\<lparr>Clients := take m arr, Written := out\<rparr>))"

text \<open>
  One round of \<open>for { l := <-Logs; go Clients.BroadcastLog(LogToSSE(&l)) }\<close>: the
  oldest entry is received and rendered, and a goroutine is started for its delivery.
  \<open>None\<close> when the receive waits on the empty stream.
\<close>

definition BroadcastLogs_round :: "world \<Rightarrow> world option" where
  "BroadcastLogs_round w =
     (case Logs w of
        [] \<Rightarrow> None
      | l # rest \<Rightarrow> Some (w\<lparr>Logs := rest, Deliveries := Deliveries w @ [LogToSSE l]\<rparr>))"

text \<open>
  The started delivery number \<open>k\<close> takes the registry lock and runs \<open>BroadcastLog\<close> to
  its end. Go does not say which waiting goroutine takes a lock next, so \<open>k\<close> is any
  index of \<open>Deliveries\<close>; with no such delivery nothing happens.
\<close>

definition deliver :: "Net \<Rightarrow> nat \<Rightarrow> world \<Rightarrow> panic + world" where
  "deliver net k w =
     (if k < length (Deliveries w)
      then BroadcastLog net (Deliveries w ! k)
             (w\<lparr>Deliveries := take k (Deliveries w) @ drop (Suc k) (Deliveries w)\<rparr>)
      else Inr w)"

text \<open>What the writer \<open>wr\<close> has received, in order.\<close>

definition received :: "nat \<Rightarrow> world \<Rightarrow> string list" where
  "received wr w = map snd (filter (\<lambda>p. fst p = wr) (Written w))"

subsection \<open>The event stream handler\<close>

text \<open>
  One move of \<open>GetEventsHandler\<close>, from the point where the handler stands.
  \<^item> \<open>for len(Logs) > 0 { <-Logs }\<close> is a test and a receive; the receive waits while
    the channel is empty (another goroutine may have taken the entry since the test). The
    same for \<open>EventQueue\<close>.
  \<^item> \<open>index := Clients.Length()\<close>, \<open>Clients.AddClient(Client{id, w, r})\<close> and
    \<open>Clients.Flush(index)\<close> are three moves. The client, with the value of
    \<open>uuid.New().ID()\<close> as its id, is the handler's from the start.
  \<^item> \<open>Devices.ForEach\<close> sends every device of the registry to the log stream, holding
    the registry's lock; \<open>order\<close> is the order of the map traversal.
  \<^item> The \<open>select\<close> at the end moves once the request's context is done: the client is
    removed.
\<close>

fun GetEventsHandler :: "string list \<Rightarrow> handler \<times> world \<Rightarrow> handler \<times> world" where
  "GetEventsHandler order (LogsTest c, w) =
     (if 0 < length (Logs w) then (LogsReceive c, w) else (EventsTest c, w))"
| "GetEventsHandler order (LogsReceive c, w) =
     (case Logs w of
        [] \<Rightarrow> (LogsReceive c, w)
      | l # rest \<Rightarrow> (LogsTest c, w\<lparr>Logs := rest\<rparr>))"
| "GetEventsHandler order (EventsTest c, w) =
     (if 0 < length (EventQueue w) then (EventsReceive c, w) else (AtLength c, w))"
| "GetEventsHandler order (EventsReceive c, w) =
     (case EventQueue w of
        [] \<Rightarrow> (EventsReceive c, w)
      | e # rest \<Rightarrow> (EventsTest c, w\<lparr>EventQueue := rest\<rparr>))"
| "GetEventsHandler order (AtLength c, w) = (AtAddClient c (Length w), w)"
| "GetEventsHandler order (AtAddClient c index, w) = (AtFlush c index, AddClient c w)"
| "GetEventsHandler order (AtFlush c index, w) =
     (case Flush index w of
        Inl e \<Rightarrow> (Panicked e, w)
      | Inr w' \<Rightarrow> (AtForEach c, w'))"
| "GetEventsHandler order (AtForEach c, w) =
     (AtSelect c, ForEach order (\<lambda>_ device. LogDeviceInfo [Address device, Name device]) w)"
| "GetEventsHandler order (AtSelect c, w) = (Ended, RemoveClient (Client_id c) w)"
| "GetEventsHandler order (Ended, w) = (Ended, w)"
| "GetEventsHandler order (Panicked e, w) = (Panicked e, w)"

text \<open>A request for the event stream arrives: a handler starts for its client.\<close>

definition open_stream :: "Client \<Rightarrow> world \<Rightarrow> world" where
  "open_stream c w = w\<lparr>Handlers := Handlers w @ [LogsTest c]\<rparr>"

text \<open>A move of the handler number \<open>k\<close> of those under way.\<close>

definition handler_step :: "nat \<Rightarrow> string list \<Rightarrow> world \<Rightarrow> world" where
  "handler_step k order w =
     (if k < length (Handlers w) then
        (case GetEventsHandler order (Handlers w ! k, w) of
           (h', w') \<Rightarrow> w'\<lparr>Handlers := (Handlers w)[k := h']\<rparr>)
      else w)"

subsection \<open>Runs of the process\<close>

text \<open>
  One step of the process: a command handler enqueues an event, the event loop
  dispatches one, a call of \<open>Scan\<close> or its goroutine moves, a second passes, a request
  for the event stream arrives, an event stream handler moves, the broadcast loop
  receives an entry, or a started delivery runs. A delivery that ends in a panic ends the
  process and leads to no state.
\<close>

inductive step :: "world \<Rightarrow> world \<Rightarrow> bool" where
  handler: "step w (enqueue e w)"
| command: "ProcessEventQueue_round drv w = Some w' \<Longrightarrow> step w w'"
| scan: "step w (scan_step k m w)"
| tick: "step w (w\<lparr>Clock := Suc (Clock w)\<rparr>)"
| request: "step w (open_stream c w)"
| stream: "step w (handler_step k order w)"
| broadcast: "BroadcastLogs_round w = Some w' \<Longrightarrow> step w w'"
| delivery: "deliver net k w = Inr w' \<Longrightarrow> step w w'"

definition reachable :: "world \<Rightarrow> bool" where
  "reachable w = step\<^sup>*\<^sup>* init_world w"

text \<open>
  A sequence of \<open>Connect\<close> calls, each with the driver's answers at its time, and the
  number of them that take the adapter from not connected to connected.
\<close>

fun run_connects :: "(Driver \<times> string) list \<Rightarrow> world \<Rightarrow> world" where
  "run_connects [] w = w"
| "run_connects ((drv, address) # cs) w = run_connects cs (Connect drv address w)"

fun acquisitions :: "(Driver \<times> string) list \<Rightarrow> world \<Rightarrow> nat" where
  "acquisitions [] w = 0"
| "acquisitions ((drv, address) # cs) w =
     (if \<not> Connected w \<and> Connected (Connect drv address w) then 1 else 0)
       + acquisitions cs (Connect drv address w)"

subsection \<open>Concrete states and driver answers\<close>

text \<open>
  A registry holding one device, the same state with a connection to it, a driver whose
  calls all succeed and one whose calls all fail.
\<close>

definition dev1 :: Device where
  "dev1 = \<lparr>Name = ''MyDevice'', Address = ''AA:BB:CC:DD:EE:FF''\<rparr>"

definition w_known :: world where
  "w_known = init_world\<lparr>Devices := [''AA:BB:CC:DD:EE:FF'' \<mapsto> dev1]\<rparr>"

definition w_linked :: world where
  "w_linked = w_known\<lparr>BTDevice := Some 1, Connected := True\<rparr>"

definition drv_ok :: Driver where
  "drv_ok = \<lparr>Adapter_Connect = (\<lambda>_. (Some 1, None)), Device_Disconnect = (\<lambda>_. None),
             Adapter_StopScan = None\<rparr>"

definition drv_down :: Driver where
  "drv_down = \<lparr>Adapter_Connect = (\<lambda>_. (None, Some ''timeout'')),
               Device_Disconnect = (\<lambda>_. Some ''timeout''),
               Adapter_StopScan = Some ''timeout''\<rparr>"


definition found1 :: ScanResult where
  "found1 = \<lparr>LocalName = ''MyDevice'', ResultAddress = ''AA:BB:CC:DD:EE:FF''\<rparr>"


definition unnamed :: ScanResult where
  "unnamed = \<lparr>LocalName = [], ResultAddress = ''AA:BB''\<rparr>"


text \<open>
  The state after a SCAN command has been dispatched, the call of \<open>Scan\<close> has begun,
  and the driver has delivered the result for \<open>dev1\<close> and a result without a name.
\<close>

definition w_found :: world where
  "w_found =
     scan_step 0 (Discovery unnamed)
       (scan_step 0 (Discovery found1)
          (scan_step 0 Begin
             (init_world\<lparr>Scans := [\<lparr>point = Called 5, scanning = False\<rparr>]\<rparr>)))"

text \<open>
  A state with two devices, entries waiting in both channels, and one subscriber whose
  handler is in its final \<open>select\<close>; the same state with nothing waiting; a second
  client.
\<close>

definition dev2 :: Device where
  "dev2 = \<lparr>Name = ''Lamp'', Address = ''11:22:33:44:55:66''\<rparr>"

definition c7 :: Client where
  "c7 = \<lparr>Client_id = 7, Client_w = 1, Client_r = 1\<rparr>"

definition c9 :: Client where
  "c9 = \<lparr>Client_id = 9, Client_w = 2, Client_r = 2\<rparr>"

definition w_busy :: world where
  "w_busy = init_world
     \<lparr>Logs := [\<lparr>Level = ''INFO'', Msg = ''Scanning...''\<rparr>],
      EventQueue := [\<lparr>Type = ''DISCONNECT'', Data = []\<rparr>, \<lparr>Type = ''SCAN'', Data = []\<rparr>],
      Devices := [''AA:BB:CC:DD:EE:FF'' \<mapsto> dev1, ''11:22:33:44:55:66'' \<mapsto> dev2],
      Clients := [c7], Handlers := [AtSelect c7]\<rparr>"

definition w_idle :: world where
  "w_idle = w_busy\<lparr>Logs := [], EventQueue := []\<rparr>"

text \<open>
  Three subscribers \<open>ca\<close>, \<open>cb\<close>, \<open>cc\<close> with the writers 1, 2, 3; a network on which
  only the writes to writer 1 fail and one on which nothing fails; two log entries.
\<close>

definition ca :: Client where
  "ca = \<lparr>Client_id = 1, Client_w = 1, Client_r = 1\<rparr>"

definition cb :: Client where
  "cb = \<lparr>Client_id = 2, Client_w = 2, Client_r = 2\<rparr>"

definition cc :: Client where
  "cc = \<lparr>Client_id = 3, Client_w = 3, Client_r = 3\<rparr>"

definition net_a_broken :: Net where
  "net_a_broken = \<lparr>write_err = (\<lambda>wr. wr = 1), ctx_done = (\<lambda>_. False)\<rparr>"

definition net_fine :: Net where
  "net_fine = \<lparr>write_err = (\<lambda>_. False), ctx_done = (\<lambda>_. False)\<rparr>"

definition L1 :: Log where
  "L1 = \<lparr>Level = ''INFO'', Msg = ''Scanning...''\<rparr>"

definition L2 :: Log where
  "L2 = \<lparr>Level = ''INFO'', Msg = ''Stopped Scanning.''\<rparr>"

definition w_three :: world where
  "w_three = init_world\<lparr>Logs := [L1, L2], Clients := [ca, cb, cc]\<rparr>"

definition w_solo :: world where
  "w_solo = init_world\<lparr>Logs := [L1, L2], Clients := [cb]\<rparr>"

section \<open>Properties\<close>

subsection \<open>What the logging functions change\<close>

lemma LogInfo_fields [simp]:
  "BTDevice (LogInfo xs w) = BTDevice w" "Connected (LogInfo xs w) = Connected w"
  "Devices (LogInfo xs w) = Devices w" "Clients (LogInfo xs w) = Clients w"
  "EventQueue (LogInfo xs w) = EventQueue w" "Deliveries (LogInfo xs w) = Deliveries w"
  "Written (LogInfo xs w) = Written w"
  "Clock (LogInfo xs w) = Clock w" "StopScanCalls (LogInfo xs w) = StopScanCalls w"
  "Scans (LogInfo xs w) = Scans w" "Handlers (LogInfo xs w) = Handlers w"
  "Logs (LogInfo xs w) = Logs w @ [\<lparr>Level = ''INFO'', Msg = Join xs '' ''\<rparr>]"
  by (simp_all add: LogInfo_def)

lemma LogError_fields [simp]:
  "BTDevice (LogError xs w) = BTDevice w" "Connected (LogError xs w) = Connected w"
  "Devices (LogError xs w) = Devices w" "Clients (LogError xs w) = Clients w"
  "EventQueue (LogError xs w) = EventQueue w" "Deliveries (LogError xs w) = Deliveries w"
  "Written (LogError xs w) = Written w"
  "Clock (LogError xs w) = Clock w" "StopScanCalls (LogError xs w) = StopScanCalls w"
  "Scans (LogError xs w) = Scans w" "Handlers (LogError xs w) = Handlers w"
  "Logs (LogError xs w) = Logs w @ [\<lparr>Level = ''ERROR'', Msg = Join xs '' ''\<rparr>]"
  by (simp_all add: LogError_def)

lemma LogDeviceInfo_fields [simp]:
  "BTDevice (LogDeviceInfo xs w) = BTDevice w" "Connected (LogDeviceInfo xs w) = Connected w"
  "Devices (LogDeviceInfo xs w) = Devices w" "Clients (LogDeviceInfo xs w) = Clients w"
  "EventQueue (LogDeviceInfo xs w) = EventQueue w"
  "Deliveries (LogDeviceInfo xs w) = Deliveries w"
  "Written (LogDeviceInfo xs w) = Written w"
  "Clock (LogDeviceInfo xs w) = Clock w" "StopScanCalls (LogDeviceInfo xs w) = StopScanCalls w"
  "Scans (LogDeviceInfo xs w) = Scans w" "Handlers (LogDeviceInfo xs w) = Handlers w"
  "Logs (LogDeviceInfo xs w) = Logs w @ [\<lparr>Level = ''DEVICE'', Msg = Join xs '';''\<rparr>]"
  by (simp_all add: LogDeviceInfo_def)

lemma Exists_iff: "Exists w a \<longleftrightarrow> Devices w a \<noteq> None"
  by (simp add: Exists_def split: option.split)

lemma SafeDevices_Device_Some: "Devices w a = Some d \<Longrightarrow> SafeDevices_Device w a = d"
  by (simp add: SafeDevices_Device_def)

lemma Join_pair: "Join [a, b] sep = a @ sep @ b"
  by simp

subsection \<open>Wire encoding\<close>

text \<open>
  C8. Every log entry is encoded as \<open>event: \<close>, the level, a newline, \<open>data: "\<close>, the
  message, \<open>"\<close> and two newlines; the entry \<open>{DEVICE, "AA:BB:CC:DD:EE:FF;MyDevice"}\<close>
  gives exactly that frame; and the entry that a discovery sends to the log stream, when
  it sends one, has level DEVICE and the payload address, semicolon, name.
\<close>

theorem LogToSSE_frame:
  "LogToSSE l = ''event: '' @ Level l @ [CHR 0x0A] @ ''data: '' @ [CHR 0x22] @ Msg l
                  @ [CHR 0x22, CHR 0x0A, CHR 0x0A]
   \<and> LogToSSE \<lparr>Level = ''DEVICE'', Msg = ''AA:BB:CC:DD:EE:FF;MyDevice''\<rparr>
       = ''event: DEVICE'' @ [CHR 0x0A] @ ''data: '' @ [CHR 0x22]
           @ ''AA:BB:CC:DD:EE:FF;MyDevice'' @ [CHR 0x22, CHR 0x0A, CHR 0x0A]
   \<and> (Logs (on_discovery result w) = Logs w
      \<or> Logs (on_discovery result w)
          = Logs w @ [\<lparr>Level = ''DEVICE'',
                       Msg = ResultAddress result @ '';'' @ LocalName result\<rparr>])"
  by (simp add: LogToSSE_def on_discovery_def LogDeviceInfo_def Add_def)


subsection \<open>Connect and Disconnect\<close>

text \<open>
  C5. \<open>Connect\<close> changes nothing but the log stream, to which it sends one ERROR entry,
  when the adapter is connected or holds a handle, and likewise when the address is not
  in the registry. Otherwise it calls the driver: when that returns no error, the handle
  and \<open>Connected = True\<close> are stored and one INFO entry is sent; when it returns an
  error, one ERROR entry is sent and nothing else changes.
\<close>

theorem Connect_cases:
  "(Connected w \<or> BTDevice w \<noteq> None \<longrightarrow>
      Connect drv a w
        = w\<lparr>Logs := Logs w @ [\<lparr>Level = ''ERROR'', Msg = ''You're already connected.''\<rparr>]\<rparr>)
   \<and> (\<not> Connected w \<and> BTDevice w = None \<and> Devices w a = None \<longrightarrow>
      Connect drv a w
        = w\<lparr>Logs := Logs w @ [\<lparr>Level = ''ERROR'', Msg = ''Could not find the device.''\<rparr>]\<rparr>)
   \<and> (\<not> Connected w \<and> BTDevice w = None \<and> Devices w a = Some d
        \<and> Adapter_Connect drv (Address d) = (dvc, None) \<longrightarrow>
      Connect drv a w
        = w\<lparr>BTDevice := dvc, Connected := True,
             Logs := Logs w @ [\<lparr>Level = ''INFO'', Msg = ''Connected to '' @ Name d\<rparr>]\<rparr>)
   \<and> (\<not> Connected w \<and> BTDevice w = None \<and> Devices w a = Some d
        \<and> Adapter_Connect drv (Address d) = (dvc, Some err) \<longrightarrow>
      Connect drv a w
        = w\<lparr>Logs := Logs w @ [\<lparr>Level = ''ERROR'',
                                 Msg = ''Could not connect to  '' @ Name d @ '' '' @ err\<rparr>]\<rparr>)"
  by (simp add: Connect_def Exists_iff SafeDevices_Device_Some LogError_def LogInfo_def)

theorem Connect_cases_witness:
  "(Connected w_linked \<or> BTDevice w_linked \<noteq> None)
   \<and> Connect drv_ok ''AA:BB:CC:DD:EE:FF'' w_linked
       = w_linked\<lparr>Logs := [\<lparr>Level = ''ERROR'', Msg = ''You're already connected.''\<rparr>]\<rparr>
   \<and> Devices w_known ''AA:BB'' = None
   \<and> Connect drv_ok ''AA:BB'' w_known
       = w_known\<lparr>Logs := [\<lparr>Level = ''ERROR'', Msg = ''Could not find the device.''\<rparr>]\<rparr>
   \<and> Devices w_known ''AA:BB:CC:DD:EE:FF'' = Some dev1
   \<and> Connect drv_ok ''AA:BB:CC:DD:EE:FF'' w_known
       = w_known\<lparr>BTDevice := Some 1, Connected := True,
                  Logs := [\<lparr>Level = ''INFO'', Msg = ''Connected to MyDevice''\<rparr>]\<rparr>
   \<and> Connect drv_down ''AA:BB:CC:DD:EE:FF'' w_known
       = w_known\<lparr>Logs := [\<lparr>Level = ''ERROR'',
                            Msg = ''Could not connect to  MyDevice timeout''\<rparr>]\<rparr>"
proof -
  have linked: "Connected w_linked \<or> BTDevice w_linked \<noteq> None"
    by (simp add: w_linked_def)
  have idle: "\<not> Connected w_known \<and> BTDevice w_known = None"
    by (simp add: w_known_def init_world_def)
  have unknown: "Devices w_known ''AA:BB'' = None"
    by (simp add: w_known_def)
  have known: "Devices w_known ''AA:BB:CC:DD:EE:FF'' = Some dev1"
    by (simp add: w_known_def)
  have ok: "Adapter_Connect drv_ok (Address dev1) = (Some 1, None)"
    by (simp add: drv_ok_def)
  have down: "Adapter_Connect drv_down (Address dev1) = (None, Some ''timeout'')"
    by (simp add: drv_down_def)
  have logs: "Logs w_linked = []" "Logs w_known = []" "Name dev1 = ''MyDevice''"
    by (simp_all add: w_linked_def w_known_def init_world_def dev1_def)
  show ?thesis
    using linked idle unknown known ok down
      Connect_cases [where w = w_linked and drv = drv_ok and a = "''AA:BB:CC:DD:EE:FF''"]
      Connect_cases [where w = w_known and drv = drv_ok and a = "''AA:BB''"]
      Connect_cases [where w = w_known and drv = drv_ok and a = "''AA:BB:CC:DD:EE:FF''"
        and d = dev1 and dvc = "Some 1"]
      Connect_cases [where w = w_known and drv = drv_down and a = "''AA:BB:CC:DD:EE:FF''"
        and d = dev1 and dvc = None and err = "''timeout''"]
    by (simp add: logs)
qed

text \<open>
  C4. \<open>Disconnect\<close> changes nothing but the log stream, to which it sends one ERROR
  entry, when the adapter is not connected or holds no handle. Otherwise it calls the
  driver: when that returns no error, \<open>Connected\<close> becomes false, the handle nil and one
  INFO entry is sent; when it returns an error, the handle and \<open>Connected = True\<close> stay
  and one ERROR entry is sent.
\<close>

theorem Disconnect_cases:
  "(\<not> Connected w \<or> BTDevice w = None \<longrightarrow>
      Disconnect drv w
        = w\<lparr>Logs := Logs w @ [\<lparr>Level = ''ERROR'',
                                 Msg = ''Currently not connected to any device.''\<rparr>]\<rparr>)
   \<and> (Connected w \<and> BTDevice w = Some dev \<and> Device_Disconnect drv dev = None \<longrightarrow>
      Disconnect drv w
        = w\<lparr>Connected := False, BTDevice := None,
             Logs := Logs w @ [\<lparr>Level = ''INFO'', Msg = ''Disconnected.''\<rparr>]\<rparr>)
   \<and> (Connected w \<and> BTDevice w = Some dev \<and> Device_Disconnect drv dev = Some err \<longrightarrow>
      Disconnect drv w
        = w\<lparr>Logs := Logs w @ [\<lparr>Level = ''ERROR'',
                                 Msg = ''Could not disconnect device - '' @ err\<rparr>]\<rparr>)"
  by (simp add: Disconnect_def LogError_def LogInfo_def)

theorem Disconnect_cases_witness:
  "\<not> Connected w_known
   \<and> Disconnect drv_ok w_known
       = w_known\<lparr>Logs := [\<lparr>Level = ''ERROR'',
                            Msg = ''Currently not connected to any device.''\<rparr>]\<rparr>
   \<and> Connected w_linked \<and> BTDevice w_linked = Some 1
   \<and> Disconnect drv_ok w_linked
       = w_linked\<lparr>Connected := False, BTDevice := None,
                   Logs := [\<lparr>Level = ''INFO'', Msg = ''Disconnected.''\<rparr>]\<rparr>
   \<and> Disconnect drv_down w_linked
       = w_linked\<lparr>Logs := [\<lparr>Level = ''ERROR'',
                             Msg = ''Could not disconnect device - timeout''\<rparr>]\<rparr>"
proof -
  have idle: "\<not> Connected w_known"
    by (simp add: w_known_def init_world_def)
  have linked: "Connected w_linked \<and> BTDevice w_linked = Some 1"
    by (simp add: w_linked_def)
  have ok: "Device_Disconnect drv_ok 1 = None"
    by (simp add: drv_ok_def)
  have down: "Device_Disconnect drv_down 1 = Some ''timeout''"
    by (simp add: drv_down_def)
  have logs: "Logs w_linked = []" "Logs w_known = []"
    by (simp_all add: w_linked_def w_known_def init_world_def)
  show ?thesis
    using idle linked ok down
      Disconnect_cases [where w = w_known and drv = drv_ok]
      Disconnect_cases [where w = w_linked and drv = drv_ok and dev = 1]
      Disconnect_cases [where w = w_linked and drv = drv_down and dev = 1
        and err = "''timeout''"]
    by (simp add: logs)
qed

lemma Connect_while_connected:
  "Connected w \<or> BTDevice w \<noteq> None \<Longrightarrow>
     Connect drv a w = LogError [''You're already connected.''] w"
  by (simp add: Connect_def)

lemma Connect_keeps_connected:
  "Connected w \<or> BTDevice w \<noteq> None \<Longrightarrow>
     Connected (Connect drv a w) \<or> BTDevice (Connect drv a w) \<noteq> None"
  by (simp add: Connect_while_connected)

lemma run_connects_connected:
  "Connected w \<or> BTDevice w \<noteq> None \<Longrightarrow>
     run_connects cs w
       = w\<lparr>Logs := Logs w @ replicate (length cs)
                              \<lparr>Level = ''ERROR'', Msg = ''You're already connected.''\<rparr>\<rparr>"
proof (induction cs arbitrary: w)
  case Nil
  then show ?case by simp
next
  case (Cons c cs)
  obtain drv a where c: "c = (drv, a)" by (cases c)
  have k: "Connected (Connect drv a w) \<or> BTDevice (Connect drv a w) \<noteq> None"
    using Cons.prems by (rule Connect_keeps_connected)
  show ?case
    unfolding c run_connects.simps Cons.IH [OF k]
    using Cons.prems
    by (simp add: Connect_while_connected LogError_def replicate_append_same)
qed

lemma acquisitions_connected:
  "Connected w \<or> BTDevice w \<noteq> None \<Longrightarrow> acquisitions cs w = 0"
proof (induction cs arbitrary: w)
  case Nil
  then show ?case by simp
next
  case (Cons c cs)
  obtain drv a where c: "c = (drv, a)" by (cases c)
  have k: "Connected (Connect drv a w) \<or> BTDevice (Connect drv a w) \<noteq> None"
    using Cons.prems by (rule Connect_keeps_connected)
  have "\<not> (\<not> Connected w \<and> Connected (Connect drv a w))"
    using Cons.prems by (auto simp: Connect_while_connected)
  then show ?case
    unfolding c using Cons.IH [OF k] by simp
qed

lemma Connect_disconnected_after:
  "\<not> Connected (Connect drv a w) \<Longrightarrow> \<not> Connected w \<Longrightarrow> BTDevice w = None \<Longrightarrow>
     BTDevice (Connect drv a w) = None"
  by (auto simp: Connect_def Let_def split: prod.splits option.splits if_splits)

lemma acquisitions_le_1:
  "\<not> Connected w \<Longrightarrow> BTDevice w = None \<Longrightarrow> acquisitions cs w \<le> 1"
proof (induction cs arbitrary: w)
  case Nil
  then show ?case by simp
next
  case (Cons c cs)
  obtain drv a where c: "c = (drv, a)" by (cases c)
  show ?case
  proof (cases "Connected (Connect drv a w)")
    case True
    then have "acquisitions cs (Connect drv a w) = 0"
      by (simp add: acquisitions_connected)
    then show ?thesis unfolding c by simp
  next
    case False
    then have "BTDevice (Connect drv a w) = None"
      using Cons.prems by (simp add: Connect_disconnected_after)
    with False have "acquisitions cs (Connect drv a w) \<le> 1"
      by (rule Cons.IH)
    with False show ?thesis unfolding c by simp
  qed
qed

text \<open>
  C1. In any sequence of \<open>Connect\<close> calls that starts with the adapter not connected and
  without a handle, at most one call takes the adapter to connected. From a state that
  is connected or holds a handle no call of the sequence does, and the whole sequence
  changes nothing but the log stream, to which each call sends the ERROR entry
  \<open>You're already connected.\<close>
\<close>

theorem connect_at_most_once:
  "(\<not> Connected w \<and> BTDevice w = None \<longrightarrow> acquisitions cs w \<le> 1)
   \<and> (Connected w \<or> BTDevice w \<noteq> None \<longrightarrow>
        acquisitions cs w = 0
        \<and> run_connects cs w
            = w\<lparr>Logs := Logs w @ replicate (length cs)
                   \<lparr>Level = ''ERROR'', Msg = ''You're already connected.''\<rparr>\<rparr>)"
  using acquisitions_le_1 [of w cs] acquisitions_connected [of w cs]
    run_connects_connected [of w cs]
  by blast

theorem connect_at_most_once_witness:
  "\<not> Connected w_known \<and> BTDevice w_known = None
   \<and> acquisitions [(drv_down, ''AA:BB:CC:DD:EE:FF''), (drv_ok, ''AA:BB:CC:DD:EE:FF''),
                    (drv_ok, ''AA:BB:CC:DD:EE:FF'')] w_known = 1
   \<and> (Connected w_linked \<or> BTDevice w_linked \<noteq> None)
   \<and> run_connects [(drv_ok, ''AA:BB:CC:DD:EE:FF''), (drv_ok, ''AA:BB'')] w_linked
       = w_linked\<lparr>Logs := [\<lparr>Level = ''ERROR'', Msg = ''You're already connected.''\<rparr>,
                            \<lparr>Level = ''ERROR'', Msg = ''You're already connected.''\<rparr>]\<rparr>"
proof -
  have idle: "\<not> Connected w_known \<and> BTDevice w_known = None"
    by (simp add: w_known_def init_world_def)
  have linked: "Connected w_linked \<or> BTDevice w_linked \<noteq> None"
    by (simp add: w_linked_def)
  have logs: "Logs w_linked = []"
    by (simp add: w_linked_def w_known_def init_world_def)
  have one: "1 \<le> acquisitions [(drv_down, ''AA:BB:CC:DD:EE:FF''),
               (drv_ok, ''AA:BB:CC:DD:EE:FF''), (drv_ok, ''AA:BB:CC:DD:EE:FF'')] w_known"
    by (simp add: Connect_def Exists_def SafeDevices_Device_def w_known_def init_world_def
        drv_ok_def drv_down_def dev1_def)
  show ?thesis
    using idle linked one
      connect_at_most_once [where w = w_known and cs = "[(drv_down, ''AA:BB:CC:DD:EE:FF''),
        (drv_ok, ''AA:BB:CC:DD:EE:FF''), (drv_ok, ''AA:BB:CC:DD:EE:FF'')]"]
      connect_at_most_once [where w = w_linked
        and cs = "[(drv_ok, ''AA:BB:CC:DD:EE:FF''), (drv_ok, ''AA:BB'')]"]
    by (simp add: logs)
qed

subsection \<open>The registry and the adapter along a run\<close>

lemma on_discovery_fields [simp]:
  "BTDevice (on_discovery r w) = BTDevice w" "Connected (on_discovery r w) = Connected w"
  "Clients (on_discovery r w) = Clients w" "EventQueue (on_discovery r w) = EventQueue w"
  "Deliveries (on_discovery r w) = Deliveries w" "Written (on_discovery r w) = Written w"
  "Clock (on_discovery r w) = Clock w" "StopScanCalls (on_discovery r w) = StopScanCalls w"
  "Scans (on_discovery r w) = Scans w" "Handlers (on_discovery r w) = Handlers w"
  by (simp_all add: on_discovery_def Add_def)

lemma on_discovery_keeps:
  "Devices w a = Some d \<Longrightarrow> Devices (on_discovery r w) a = Some d"
  by (auto simp: on_discovery_def Add_def Exists_iff)

lemma on_discovery_names:
  "Devices (on_discovery r w) a = Some d \<Longrightarrow> Devices w a = Some d \<or> Name d \<noteq> []"
  by (auto simp: on_discovery_def Add_def Exists_iff split: if_splits)


lemma Scan_move_adapter:
  assumes "Scan_move m (s, w) = (s', w')"
  shows "BTDevice w' = BTDevice w \<and> Connected w' = Connected w
         \<and> (Devices w' = Devices w \<or> (\<exists>r. Devices w' = Devices (on_discovery r w)))"
proof (cases m)
  case (Discovery r)
  with assms show ?thesis by (auto split: if_splits)
qed (use assms in \<open>auto split: scan_point.splits option.splits if_splits\<close>)

lemma scan_step_adapter:
  "BTDevice (scan_step k m w) = BTDevice w \<and> Connected (scan_step k m w) = Connected w
   \<and> (Devices (scan_step k m w) = Devices w
      \<or> (\<exists>r. Devices (scan_step k m w) = Devices (on_discovery r w)))"
proof (cases "k < length (Scans w)")
  case True
  obtain s' w' where m: "Scan_move m (Scans w ! k, w) = (s', w')"
    by (cases "Scan_move m (Scans w ! k, w)")
  with True have "scan_step k m w = w'\<lparr>Scans := (Scans w)[k := s']\<rparr>"
    by (simp add: scan_step_def)
  with Scan_move_adapter [OF m] show ?thesis by simp
next
  case False
  then show ?thesis by (simp add: scan_step_def)
qed

lemma StopScan_fields [simp]:
  "BTDevice (StopScan drv w) = BTDevice w" "Connected (StopScan drv w) = Connected w"
  "Devices (StopScan drv w) = Devices w"
  by (simp_all add: StopScan_def split: option.split)

lemma Connect_Devices [simp]: "Devices (Connect drv a w) = Devices w"
  by (simp add: Connect_def Let_def split: prod.split option.split)

lemma Disconnect_Devices [simp]: "Devices (Disconnect drv w) = Devices w"
  by (simp add: Disconnect_def split: option.split)

lemma Connect_needs_device:
  "Connected (Connect drv a w) \<or> BTDevice (Connect drv a w) \<noteq> None \<Longrightarrow>
     Connected w \<or> BTDevice w \<noteq> None \<or> Devices w a \<noteq> None"
  by (auto simp: Connect_def Exists_iff split: if_splits)

lemma Disconnect_stays_idle:
  "Connected (Disconnect drv w) \<or> BTDevice (Disconnect drv w) \<noteq> None \<Longrightarrow>
     Connected w \<or> BTDevice w \<noteq> None"
  by (auto simp: Disconnect_def split: if_splits option.splits)

lemma dispatch_Devices [simp]: "Devices (dispatch drv e w) = Devices w"
  by (simp add: dispatch_def)

lemma dispatch_adapter:
  assumes "Connected (dispatch drv e w) \<or> BTDevice (dispatch drv e w) \<noteq> None"
  shows "Connected w \<or> BTDevice w \<noteq> None \<or> (\<exists>a. Devices w a \<noteq> None)"
proof -
  have "dispatch drv e w = w\<lparr>Scans := Scans w @ [\<lparr>point = Called 5, scanning = False\<rparr>]\<rparr>
    \<or> dispatch drv e w = StopScan drv w
    \<or> dispatch drv e w = Connect drv (Data e) w \<or> dispatch drv e w = Disconnect drv w
    \<or> dispatch drv e w = w"
    by (simp add: dispatch_def)
  then consider
      "dispatch drv e w = w\<lparr>Scans := Scans w @ [\<lparr>point = Called 5, scanning = False\<rparr>]\<rparr>"
    | "dispatch drv e w = StopScan drv w"
    | "dispatch drv e w = Connect drv (Data e) w" | "dispatch drv e w = Disconnect drv w"
    | "dispatch drv e w = w"
    by blast
  then show ?thesis
  proof cases
    case 3
    with assms Connect_needs_device [of drv "Data e" w] show ?thesis by auto
  next
    case 4
    with assms Disconnect_stays_idle [of drv w] show ?thesis by auto
  qed (use assms in auto)
qed

lemma LogDeviceInfo_then_Logs: "(LogDeviceInfo xs w)\<lparr>Logs := L\<rparr> = w\<lparr>Logs := L\<rparr>"
  by (simp add: LogDeviceInfo_def)

lemma ForEach_replay:
  "ForEach order (\<lambda>_ device. LogDeviceInfo [Address device, Name device]) w
     = w\<lparr>Logs := Logs w @ map (\<lambda>a. \<lparr>Level = ''DEVICE'',
                                      Msg = Address (the (Devices w a)) @ '';''
                                              @ Name (the (Devices w a))\<rparr>)
                            (filter (\<lambda>a. Devices w a \<noteq> None) order)\<rparr>"
proof (induction order arbitrary: w)
  case Nil
  then show ?case by simp
next
  case (Cons a order)
  show ?case
  proof (cases "Devices w a")
    case None
    then show ?thesis by (simp add: Cons.IH)
  next
    case (Some d)
    then show ?thesis by (simp add: Cons.IH LogDeviceInfo_then_Logs)
  qed
qed

lemma GetEventsHandler_adapter:
  assumes "GetEventsHandler order (h, w) = (h', w')"
  shows "BTDevice w' = BTDevice w \<and> Connected w' = Connected w \<and> Devices w' = Devices w"
  using assms
  by (cases h)
    (auto simp: ForEach_replay AddClient_def RemoveClient_def Flush_def
      split: if_splits list.splits sum.splits)

lemma handler_step_adapter:
  "BTDevice (handler_step k order w) = BTDevice w
   \<and> Connected (handler_step k order w) = Connected w
   \<and> Devices (handler_step k order w) = Devices w"
proof (cases "k < length (Handlers w)")
  case True
  obtain h' w' where m: "GetEventsHandler order (Handlers w ! k, w) = (h', w')"
    by (cases "GetEventsHandler order (Handlers w ! k, w)")
  with True have "handler_step k order w = w'\<lparr>Handlers := (Handlers w)[k := h']\<rparr>"
    by (simp add: handler_step_def)
  with GetEventsHandler_adapter [OF m] show ?thesis by simp
next
  case False
  then show ?thesis by (simp add: handler_step_def)
qed

lemma BroadcastLog_frame:
  "BroadcastLog net l w = Inr w' \<Longrightarrow> \<exists>cs out. w' = w\<lparr>Clients := cs, Written := out\<rparr>"
  by (auto simp: BroadcastLog_def split: sum.splits prod.splits)

lemma deliver_frame:
  "deliver net k w = Inr w' \<Longrightarrow>
     BTDevice w' = BTDevice w \<and> Connected w' = Connected w \<and> Devices w' = Devices w"
  by (auto simp: deliver_def split: if_splits dest!: BroadcastLog_frame)

lemma step_cases_adapter:
  assumes "step w w'"
  shows "(\<exists>drv e v. w' = dispatch drv e v \<and> BTDevice v = BTDevice w
            \<and> Connected v = Connected w \<and> Devices v = Devices w)
         \<or> (BTDevice w' = BTDevice w \<and> Connected w' = Connected w
            \<and> (Devices w' = Devices w \<or> (\<exists>r. Devices w' = Devices (on_discovery r w))))"
  using assms
proof cases
  case (handler e)
  then show ?thesis by (simp add: enqueue_def)
next
  case (command drv)
  then obtain e rest where "w' = dispatch drv e (w\<lparr>EventQueue := rest\<rparr>)"
    by (auto simp: ProcessEventQueue_round_def split: list.splits)
  then have "w' = dispatch drv e (w\<lparr>EventQueue := rest\<rparr>)
      \<and> BTDevice (w\<lparr>EventQueue := rest\<rparr>) = BTDevice w
      \<and> Connected (w\<lparr>EventQueue := rest\<rparr>) = Connected w
      \<and> Devices (w\<lparr>EventQueue := rest\<rparr>) = Devices w"
    by simp
  then show ?thesis by blast
next
  case (scan k m)
  then show ?thesis using scan_step_adapter [of k m w] by simp
next
  case tick
  then show ?thesis by simp
next
  case (request c)
  then show ?thesis by (simp add: open_stream_def)
next
  case (stream k order)
  then show ?thesis using handler_step_adapter [of k order w] by simp
next
  case broadcast
  then show ?thesis by (auto simp: BroadcastLogs_round_def split: list.splits)
next
  case (delivery net k)
  then show ?thesis by (auto dest: deliver_frame)
qed

lemma step_keeps:
  assumes "step w w'" and "Devices w a = Some d"
  shows "Devices w' a = Some d"
  using step_cases_adapter [OF assms(1)] assms(2) on_discovery_keeps [of w a d]
  by auto

lemma step_names:
  assumes "step w w'" and "Devices w' a = Some d"
  shows "Devices w a = Some d \<or> Name d \<noteq> []"
  using step_cases_adapter [OF assms(1)] assms(2) on_discovery_names [of _ w a d]
  by auto

lemma step_adapter:
  assumes "step w w'" and "Connected w' \<or> BTDevice w' \<noteq> None"
  shows "Connected w \<or> BTDevice w \<noteq> None \<or> (\<exists>a. Devices w a \<noteq> None)"
  using step_cases_adapter [OF assms(1)]
proof
  assume "\<exists>drv e v. w' = dispatch drv e v \<and> BTDevice v = BTDevice w
            \<and> Connected v = Connected w \<and> Devices v = Devices w"
  then obtain drv e v where v: "w' = dispatch drv e v" "BTDevice v = BTDevice w"
    "Connected v = Connected w" "Devices v = Devices w"
    by blast
  from assms(2) v(1) have "Connected v \<or> BTDevice v \<noteq> None \<or> (\<exists>a. Devices v a \<noteq> None)"
    using dispatch_adapter [of drv e v] by simp
  with v show ?thesis by simp
next
  assume "BTDevice w' = BTDevice w \<and> Connected w' = Connected w
            \<and> (Devices w' = Devices w \<or> (\<exists>r. Devices w' = Devices (on_discovery r w)))"
  with assms(2) show ?thesis by auto
qed


lemma reachable_names:
  "reachable w \<Longrightarrow> Devices w a = Some d \<Longrightarrow> Name d \<noteq> []"
  unfolding reachable_def
proof (induction arbitrary: a d rule: rtranclp_induct)
  case base
  then show ?case by (simp add: init_world_def)
next
  case (step y z)
  from step.hyps(2) step.prems have "Devices y a = Some d \<or> Name d \<noteq> []"
    by (rule step_names)
  then show ?case using step.IH by blast
qed

lemma reachable_adapter:
  "reachable w \<Longrightarrow> Connected w \<or> BTDevice w \<noteq> None \<Longrightarrow> \<exists>a. Devices w a \<noteq> None"
  unfolding reachable_def
proof (induction rule: rtranclp_induct)
  case base
  then show ?case by (simp add: init_world_def)
next
  case (step y z)
  from step.hyps(2) step.prems
  have "Connected y \<or> BTDevice y \<noteq> None \<or> (\<exists>a. Devices y a \<noteq> None)"
    by (rule step_adapter)
  then have "\<exists>a. Devices y a \<noteq> None"
    using step.IH by blast
  then obtain a d where "Devices y a = Some d" by auto
  with step.hyps(2) have "Devices z a = Some d" by (rule step_keeps)
  then show ?case by auto
qed

subsection \<open>The device registry\<close>




subsection \<open>Connect against an empty registry\<close>

text \<open>
  C6. In every state the process can reach in which the registry is empty,
  \<open>Connect "AA:BB"\<close> sends exactly one ERROR entry, \<open>Could not find the device.\<close>,
  and changes nothing else; the connected flag and the handle stay as they were.
\<close>

theorem Connect_empty_registry:
  "reachable w \<Longrightarrow> Devices w = Map.empty \<Longrightarrow>
     Connect drv ''AA:BB'' w
       = w\<lparr>Logs := Logs w @ [\<lparr>Level = ''ERROR'', Msg = ''Could not find the device.''\<rparr>]\<rparr>"
proof -
  assume r: "reachable w" and e: "Devices w = Map.empty"
  have "\<not> (Connected w \<or> BTDevice w \<noteq> None)"
  proof
    assume "Connected w \<or> BTDevice w \<noteq> None"
    with r have "\<exists>a. Devices w a \<noteq> None"
      by (rule reachable_adapter)
    with e show False by simp
  qed
  then have idle: "\<not> Connected w" "BTDevice w = None"
    by blast+
  show ?thesis
    using idle e by (simp add: Connect_def Exists_def LogError_def)
qed

theorem Connect_empty_registry_witness:
  "reachable init_world \<and> Devices init_world = Map.empty
   \<and> Connect drv_ok ''AA:BB'' init_world
       = init_world\<lparr>Logs := [\<lparr>Level = ''ERROR'', Msg = ''Could not find the device.''\<rparr>]\<rparr>"
proof -
  have r: "reachable init_world"
    by (simp add: reachable_def)
  have e: "Devices init_world = Map.empty"
    by (simp add: init_world_def)
  have "Logs init_world = []"
    by (simp add: init_world_def)
  then show ?thesis
    using r e Connect_empty_registry [OF r e, of drv_ok] by simp
qed

subsection \<open>Opening an event stream\<close>

text \<open>
  While no other goroutine moves, the handler empties both channels, whatever waits in
  them and whoever it was meant for, appends its client to the registry and sends one
  DEVICE entry for each address of the traversal that the registry holds, in that order.
\<close>

lemma funpow_two_more: "(f ^^ (n + 2)) x = (f ^^ n) (f (f x))"
  by (simp add: funpow_add numeral_2_eq_2 funpow_swap1)

lemma handler_empties_Logs:
  "(GetEventsHandler order ^^ (2 * length (Logs w) + 1)) (LogsTest c, w)
     = (EventsTest c, w\<lparr>Logs := []\<rparr>)"
proof (induction "Logs w" arbitrary: w)
  case Nil
  from Nil [symmetric] show ?case by simp
next
  case (Cons l ls)
  from Cons.hyps(2) [symmetric]
  have two: "GetEventsHandler order (GetEventsHandler order (LogsTest c, w))
               = (LogsTest c, w\<lparr>Logs := ls\<rparr>)"
    by simp
  have n: "2 * length (Logs w) + 1 = (2 * length (Logs (w\<lparr>Logs := ls\<rparr>)) + 1) + 2"
    using Cons.hyps(2) [symmetric] by simp
  have "ls = Logs (w\<lparr>Logs := ls\<rparr>)"
    by simp
  from Cons.hyps(1) [OF this] show ?case
    unfolding n funpow_two_more two by simp
qed

lemma handler_empties_EventQueue:
  "(GetEventsHandler order ^^ (2 * length (EventQueue w) + 1)) (EventsTest c, w)
     = (AtLength c, w\<lparr>EventQueue := []\<rparr>)"
proof (induction "EventQueue w" arbitrary: w)
  case Nil
  from Nil [symmetric] show ?case by simp
next
  case (Cons e es)
  from Cons.hyps(2) [symmetric]
  have two: "GetEventsHandler order (GetEventsHandler order (EventsTest c, w))
               = (EventsTest c, w\<lparr>EventQueue := es\<rparr>)"
    by simp
  have n: "2 * length (EventQueue w) + 1
             = (2 * length (EventQueue (w\<lparr>EventQueue := es\<rparr>)) + 1) + 2"
    using Cons.hyps(2) [symmetric] by simp
  have "es = EventQueue (w\<lparr>EventQueue := es\<rparr>)"
    by simp
  from Cons.hyps(1) [OF this] show ?case
    unfolding n funpow_two_more two by simp
qed

lemma handler_registers_and_replays:
  "(GetEventsHandler order ^^ 4) (AtLength c, w)
     = (AtSelect c,
        w\<lparr>Logs := Logs w @ map (\<lambda>a. \<lparr>Level = ''DEVICE'',
                                         Msg = Address (the (Devices w a)) @ '';''
                                                 @ Name (the (Devices w a))\<rparr>)
                               (filter (\<lambda>a. Devices w a \<noteq> None) order),
          Clients := Clients w @ [c]\<rparr>)"
  by (simp add: numeral_Bit0 Length_def AddClient_def Flush_def ForEach_replay)

lemma GetEventsHandler_alone:
  "(GetEventsHandler order ^^ (2 * length (Logs w) + 2 * length (EventQueue w) + 6))
     (LogsTest c, w)
     = (AtSelect c,
        w\<lparr>Logs := map (\<lambda>a. \<lparr>Level = ''DEVICE'',
                                Msg = Address (the (Devices w a)) @ '';''
                                        @ Name (the (Devices w a))\<rparr>)
                      (filter (\<lambda>a. Devices w a \<noteq> None) order),
          EventQueue := [],
          Clients := Clients w @ [c]\<rparr>)"
proof -
  let ?G = "GetEventsHandler order"
  let ?A = "2 * length (Logs w) + 1"
  let ?B = "2 * length (EventQueue (w\<lparr>Logs := []\<rparr>)) + 1"
  have n: "2 * length (Logs w) + 2 * length (EventQueue w) + 6 = 4 + (?B + ?A)"
    by simp
  have "(?G ^^ (4 + (?B + ?A))) (LogsTest c, w)
          = (?G ^^ 4) ((?G ^^ ?B) ((?G ^^ ?A) (LogsTest c, w)))"
    by (simp only: funpow_add o_apply)
  also have "\<dots> = (?G ^^ 4) ((?G ^^ ?B) (EventsTest c, w\<lparr>Logs := []\<rparr>))"
    by (simp only: handler_empties_Logs)
  also have "\<dots> = (?G ^^ 4) (AtLength c, w\<lparr>Logs := [], EventQueue := []\<rparr>)"
    by (simp only: handler_empties_EventQueue)
  also have "\<dots> = (AtSelect c,
        w\<lparr>Logs := map (\<lambda>a. \<lparr>Level = ''DEVICE'',
                                Msg = Address (the (Devices w a)) @ '';''
                                        @ Name (the (Devices w a))\<rparr>)
                      (filter (\<lambda>a. Devices w a \<noteq> None) order),
          EventQueue := [],
          Clients := Clients w @ [c]\<rparr>)"
    by (simp add: handler_registers_and_replays)
  finally show ?thesis
    unfolding n .
qed

text \<open>
  C7 does not hold of the code under every interleaving. The handler reads \<open>index\<close>
  with \<open>Clients.Length()\<close>, appends its client, and flushes \<open>Clients[index]\<close>, taking
  the registry's lock anew for each. In the run below the handler of \<open>c9\<close> (number 1)
  empties the two channels and reads \<open>index = 1\<close>; then the handler of the subscriber
  \<open>c7\<close> (number 0), whose request has ended, removes \<open>c7\<close>; then \<open>c9\<close> is appended
  at position 0 and \<open>Flush(1)\<close> panics. The handler of \<open>c9\<close> ends there: \<open>c9\<close> is
  registered, the registry holds two devices, and no DEVICE entry is sent. The same
  twelve moves with the handler of \<open>c7\<close> left waiting give the replay.
\<close>

theorem stream_open_races_with_removal:
  "fold (\<lambda>k. handler_step k [''11:22:33:44:55:66'', ''AA:BB:CC:DD:EE:FF''])
        [1, 1, 1, 1, 1, 1, 1, 1, 1, 0, 1, 1] (open_stream c9 w_busy)
     = w_busy\<lparr>Logs := [], EventQueue := [], Clients := [c9],
              Handlers := [Ended, Panicked IndexOutOfRange]\<rparr>
   \<and> Devices w_busy ''AA:BB:CC:DD:EE:FF'' = Some dev1
   \<and> Devices w_busy ''11:22:33:44:55:66'' = Some dev2
   \<and> fold (\<lambda>k. handler_step k [''11:22:33:44:55:66'', ''AA:BB:CC:DD:EE:FF''])
        [1, 1, 1, 1, 1, 1, 1, 1, 1, 1, 1, 1] (open_stream c9 w_busy)
     = w_busy\<lparr>Logs := [\<lparr>Level = ''DEVICE'', Msg = ''11:22:33:44:55:66;Lamp''\<rparr>,
                       \<lparr>Level = ''DEVICE'', Msg = ''AA:BB:CC:DD:EE:FF;MyDevice''\<rparr>],
              EventQueue := [], Clients := [c7, c9],
              Handlers := [AtSelect c7, AtSelect c9]\<rparr>"
  by (simp add: handler_step_def open_stream_def w_busy_def init_world_def Length_def
      AddClient_def Flush_def RemoveClient_def LogDeviceInfo_def c7_def c9_def dev1_def dev2_def)

subsection \<open>Scan\<close>










text \<open>
  The two goroutines of a scan are not ordered: with a deadline of zero seconds the
  calling goroutine can stop and return before the driver delivers a result, whose
  DEVICE entry then follows \<open>Stopped Scanning.\<close>, as does the ERROR entry of the
  driver's scan.
\<close>

lemma Scan_discovery_after_stop:
  "Scan 0 [Begin, Poll None, Discovery found1, Returns (Some ''stopped'')] init_world
     = (\<lparr>point = Returned, scanning = False\<rparr>,
        init_world\<lparr>StopScanCalls := [0],
                    Devices := [''AA:BB:CC:DD:EE:FF'' \<mapsto> dev1],
                    Logs := [\<lparr>Level = ''INFO'', Msg = ''Scanning...''\<rparr>,
                             \<lparr>Level = ''INFO'', Msg = ''Stopped Scanning.''\<rparr>,
                             \<lparr>Level = ''DEVICE'', Msg = ''AA:BB:CC:DD:EE:FF;MyDevice''\<rparr>,
                             \<lparr>Level = ''ERROR'', Msg = ''stopped''\<rparr>]\<rparr>)"
  by (simp add: Scan_def on_discovery_def Exists_def Add_def found1_def dev1_def LogInfo_def
      LogError_def LogDeviceInfo_def init_world_def)

text \<open>
  C10. A discovery whose local name is empty changes nothing: no registry entry, no log
  entry. And every device in the registry of a reachable state has a non-empty name.
\<close>

theorem unnamed_discovery_dropped:
  "(LocalName result = [] \<longrightarrow> on_discovery result w = w)
   \<and> (reachable w \<and> Devices w a = Some d \<longrightarrow> Name d \<noteq> [])"
  using reachable_names [of w a d] by (simp add: on_discovery_def)

theorem unnamed_discovery_dropped_witness:
  "on_discovery unnamed w_known = w_known
   \<and> reachable w_found
   \<and> Devices w_found ''AA:BB:CC:DD:EE:FF'' = Some dev1
   \<and> Devices w_found ''AA:BB'' = None
   \<and> Name dev1 \<noteq> []"
proof -
  let ?w1 = "ScanHandler init_world"
  let ?w2 = "init_world\<lparr>Scans := [\<lparr>point = Called 5, scanning = False\<rparr>]\<rparr>"
  have "step init_world ?w1"
    unfolding ScanHandler_def by (rule step.handler)
  moreover have "ProcessEventQueue_round drv_ok ?w1 = Some ?w2"
    by (simp add: ProcessEventQueue_round_def ScanHandler_def enqueue_def dispatch_def
        init_world_def)
  then have "step ?w1 ?w2"
    by (rule step.command)
  ultimately have "step\<^sup>*\<^sup>* init_world ?w2"
    by (meson rtranclp.rtrancl_into_rtrancl rtranclp.rtrancl_refl)
  then have "step\<^sup>*\<^sup>* init_world (scan_step 0 Begin ?w2)"
    using step.scan by (rule rtranclp.rtrancl_into_rtrancl)
  then have "step\<^sup>*\<^sup>* init_world (scan_step 0 (Discovery found1) (scan_step 0 Begin ?w2))"
    using step.scan by (rule rtranclp.rtrancl_into_rtrancl)
  then have "step\<^sup>*\<^sup>* init_world w_found"
    unfolding w_found_def using step.scan by (rule rtranclp.rtrancl_into_rtrancl)
  then have r: "reachable w_found"
    by (simp add: reachable_def)
  have stored: "Devices w_found ''AA:BB:CC:DD:EE:FF'' = Some dev1"
    by (simp add: w_found_def scan_step_def on_discovery_def Exists_def Add_def LogInfo_def
        LogDeviceInfo_def init_world_def dev1_def found1_def unnamed_def)
  have absent: "Devices w_found ''AA:BB'' = None"
    by (simp add: w_found_def scan_step_def on_discovery_def Exists_def Add_def LogInfo_def
        LogDeviceInfo_def init_world_def dev1_def found1_def unnamed_def)
  have e: "LocalName unnamed = []"
    by (simp add: unnamed_def)
  have dropped: "on_discovery unnamed w_known = w_known"
    using e unnamed_discovery_dropped [where result = unnamed and w = w_known]
    by blast
  have named: "Name dev1 \<noteq> []"
    using r stored unnamed_discovery_dropped
      [where w = w_found and a = "''AA:BB:CC:DD:EE:FF''" and d = dev1]
    by blast
  show ?thesis
    using dropped r stored absent named by blast
qed

subsection \<open>The broadcast\<close>

text \<open>
  While no write fails and no context is done, \<open>BroadcastLog\<close> writes the frame once
  to every client, in the order of the registry, and keeps the registry.
\<close>

lemma BroadcastLog_loop_healthy:
  assumes "\<forall>c \<in> set arr. \<not> write_err net (Client_w c) \<and> \<not> ctx_done net (Client_r c)"
    and "n = length arr"
  shows "BroadcastLog_loop net l n i (arr, m) out
           = Inr ((arr, m), out @ map (\<lambda>c. (Client_w c, l)) (drop i arr))"
  using assms
proof (induction "n - i" arbitrary: i out)
  case 0
  then show ?case by simp
next
  case (Suc k)
  then have i: "i < length arr" by simp
  then have ok: "\<not> write_err net (Client_w (arr ! i))" "\<not> ctx_done net (Client_r (arr ! i))"
    using Suc.prems(1) by (simp_all add: nth_mem)
  have k: "k = n - Suc i" using Suc.hyps(2) by simp
  have "BroadcastLog_loop net l n i (arr, m) out
          = BroadcastLog_loop net l n (Suc i) (arr, m) (out @ [(Client_w (arr ! i), l)])"
    using i ok Suc.prems(2) by (subst BroadcastLog_loop.simps) (simp add: Let_def)
  also have "\<dots> = Inr ((arr, m), (out @ [(Client_w (arr ! i), l)])
                        @ map (\<lambda>c. (Client_w c, l)) (drop (Suc i) arr))"
    using Suc.hyps(1) [OF k Suc.prems(1) Suc.prems(2)] .
  also have "\<dots> = Inr ((arr, m), out @ map (\<lambda>c. (Client_w c, l)) (drop i arr))"
    using i by (simp add: Cons_nth_drop_Suc [symmetric])
  finally show ?case .
qed

lemma BroadcastLog_healthy:
  assumes "\<forall>c \<in> set (Clients w). \<not> write_err net (Client_w c) \<and> \<not> ctx_done net (Client_r c)"
  shows "BroadcastLog net l w
           = Inr (w\<lparr>Written := Written w @ map (\<lambda>c. (Client_w c, l)) (Clients w)\<rparr>)"
  using BroadcastLog_loop_healthy [OF assms refl, of l 0 "length (Clients w)" "Written w"]
  by (simp add: BroadcastLog_def)

lemma BroadcastLog_two_dead_clients:
  "BroadcastLog \<lparr>write_err = (\<lambda>_. True), ctx_done = (\<lambda>_. False)\<rparr> l
     (init_world\<lparr>Clients := [ca, cb]\<rparr>) = Inl SliceBoundsOutOfRange"
  by (simp add: BroadcastLog_def remove_at_def Let_def init_world_def)

text \<open>
  C2 does not hold of the code. First, with the three subscribers \<open>ca\<close>, \<open>cb\<close>,
  \<open>cc\<close> and the writes to \<open>ca\<close> failing, the entries \<open>L1\<close> and \<open>L2\<close> are
  broadcast one after the other, each delivery ending before the next entry is received.
  The delivery of \<open>L1\<close> removes \<open>ca\<close> inside the loop over the clients, which moves
  \<open>cb\<close> into the slot the loop has just left: \<open>cb\<close> is passed over and \<open>cc\<close> is
  written twice. \<open>cb\<close> is registered during both deliveries and receives the frame of
  \<open>L2\<close> only. Second, with the single subscriber \<open>cb\<close> and no failure at all, both
  deliveries have been started before either runs; when the one for \<open>L2\<close> takes the
  lock first, \<open>cb\<close> receives the frame of \<open>L2\<close> before the frame of \<open>L1\<close>.
\<close>

theorem broadcast_skips_and_swaps:
  "BroadcastLogs_round w_three = Some (w_three\<lparr>Logs := [L2], Deliveries := [LogToSSE L1]\<rparr>)
   \<and> deliver net_a_broken 0 (w_three\<lparr>Logs := [L2], Deliveries := [LogToSSE L1]\<rparr>)
       = Inr (w_three\<lparr>Logs := [L2], Clients := [cb, cc],
                       Written := [(3, LogToSSE L1), (3, LogToSSE L1)]\<rparr>)
   \<and> BroadcastLogs_round (w_three\<lparr>Logs := [L2], Clients := [cb, cc],
                                   Written := [(3, LogToSSE L1), (3, LogToSSE L1)]\<rparr>)
       = Some (w_three\<lparr>Logs := [], Clients := [cb, cc], Deliveries := [LogToSSE L2],
                        Written := [(3, LogToSSE L1), (3, LogToSSE L1)]\<rparr>)
   \<and> deliver net_a_broken 0
         (w_three\<lparr>Logs := [], Clients := [cb, cc], Deliveries := [LogToSSE L2],
                   Written := [(3, LogToSSE L1), (3, LogToSSE L1)]\<rparr>)
       = Inr (w_three\<lparr>Logs := [], Clients := [cb, cc],
                       Written := [(3, LogToSSE L1), (3, LogToSSE L1),
                                   (2, LogToSSE L2), (3, LogToSSE L2)]\<rparr>)
   \<and> received 2 (w_three\<lparr>Logs := [], Clients := [cb, cc],
                           Written := [(3, LogToSSE L1), (3, LogToSSE L1),
                                       (2, LogToSSE L2), (3, LogToSSE L2)]\<rparr>)
       = [LogToSSE L2]
   \<and> BroadcastLogs_round w_solo = Some (w_solo\<lparr>Logs := [L2], Deliveries := [LogToSSE L1]\<rparr>)
   \<and> BroadcastLogs_round (w_solo\<lparr>Logs := [L2], Deliveries := [LogToSSE L1]\<rparr>)
       = Some (w_solo\<lparr>Logs := [], Deliveries := [LogToSSE L1, LogToSSE L2]\<rparr>)
   \<and> deliver net_fine 1 (w_solo\<lparr>Logs := [], Deliveries := [LogToSSE L1, LogToSSE L2]\<rparr>)
       = Inr (w_solo\<lparr>Logs := [], Deliveries := [LogToSSE L1],
                      Written := [(2, LogToSSE L2)]\<rparr>)
   \<and> deliver net_fine 0 (w_solo\<lparr>Logs := [], Deliveries := [LogToSSE L1],
                                  Written := [(2, LogToSSE L2)]\<rparr>)
       = Inr (w_solo\<lparr>Logs := [], Deliveries := [],
                      Written := [(2, LogToSSE L2), (2, LogToSSE L1)]\<rparr>)
   \<and> received 2 (w_solo\<lparr>Logs := [], Deliveries := [],
                          Written := [(2, LogToSSE L2), (2, LogToSSE L1)]\<rparr>)
       = [LogToSSE L2, LogToSSE L1]"
  by (simp add: BroadcastLogs_round_def deliver_def BroadcastLog_def remove_at_def received_def Let_def
      w_three_def w_solo_def init_world_def ca_def cb_def cc_def net_a_broken_def net_fine_def)

end
